theory Spec2Isabelle
  imports Main
begin

section \<open>Shared vocabulary\<close>

text \<open>
  A Go \<^verbatim>\<open>error\<close> value is opaque to the code under study: it is logged or handed back,
  never inspected. A call returning \<^verbatim>\<open>(v, err)\<close> is a value of \<open>error + 'a\<close>, with
  \<open>Inl err\<close> for \<^verbatim>\<open>err != nil\<close> (the accompanying value is then the zero value, which
  for a pointer or an interface is \<^verbatim>\<open>nil\<close>).
\<close>

datatype error = Error string

text \<open>
  \<^verbatim>\<open>reference.Named\<close> of the distribution library, as far as the code reads it:
  \<^verbatim>\<open>reference.Domain(named)\<close> and \<^verbatim>\<open>named.String()\<close>.
\<close>

record Named =
  Named_Domain :: string
  Named_String :: string

text \<open>\<^verbatim>\<open>strings.Join(elems, sep)\<close>.\<close>

fun Join :: "string list \<Rightarrow> string \<Rightarrow> string" where
  "Join [] sep = []"
| "Join [x] sep = x"
| "Join (x # y # ys) sep = x @ sep @ Join (y # ys) sep"

section \<open>The runtime backend (package containerd)\<close>

definition ns :: string where
  "ns = ''veinmind-runner''"

definition containerdSock :: string where
  "containerdSock = ''/run/containerd/containerd.sock''"

text \<open>
  A pulled \<^verbatim>\<open>containerd.Image\<close>, as far as the code reads it:
  \<^verbatim>\<open>string(image.Target().Digest)\<close>.
\<close>

record Image =
  Target_Digest :: string

text \<open>
  \<^verbatim>\<open>(c *RegistryClient) Pull\<close> of the runtime backend. The two library calls are
  parameters: \<open>ParseDockerRef\<close> is \<^verbatim>\<open>reference.ParseDockerRef\<close>, and \<open>client_Pull\<close> is
  \<^verbatim>\<open>c.client.Pull(context.Background(), repo, containerd.WithPullUnpack)\<close> as a function
  of the reference string it is given.
\<close>

definition containerd_Pull ::
  "(string \<Rightarrow> error + Named) \<Rightarrow> (string \<Rightarrow> error + Image) \<Rightarrow> string \<Rightarrow> error + string"
where
  "containerd_Pull ParseDockerRef client_Pull repo =
     (let repo' = (case ParseDockerRef repo of
                     Inr named \<Rightarrow> Named_String named
                   | Inl err \<Rightarrow> repo)
      in case client_Pull repo' of
           Inl err \<Rightarrow> Inl err
         | Inr img \<Rightarrow> Inr (Join [ns, Target_Digest img] ''/''))"

section \<open>Library functions modelled for the daemon backend\<close>

text \<open>
  \<^verbatim>\<open>encoding/base64\<close>: the two padded alphabets and \<^verbatim>\<open>(*Encoding).EncodeToString\<close>.
  A \<open>char\<close> is a byte, as an element of a Go string is. Three bytes become four
  6-bit digits; a final group of one or two bytes is padded with \<^verbatim>\<open>=\<close>.
\<close>

definition encodeStd :: string where
  "encodeStd = ''ABCDEFGHIJKLMNOPQRSTUVWXYZabcdefghijklmnopqrstuvwxyz0123456789+/''"

definition encodeURL :: string where
  "encodeURL = ''ABCDEFGHIJKLMNOPQRSTUVWXYZabcdefghijklmnopqrstuvwxyz0123456789-_''"

definition StdPadding :: char where
  "StdPadding = CHR ''=''"

fun EncodeToString :: "string \<Rightarrow> string \<Rightarrow> string" where
  "EncodeToString enc (a # b # c # src) =
     [enc ! (of_char a div 4),
      enc ! ((of_char a mod 4) * 16 + of_char b div 16),
      enc ! ((of_char b mod 16) * 4 + of_char c div 64),
      enc ! (of_char c mod 64)] @ EncodeToString enc src"
| "EncodeToString enc [a, b] =
     [enc ! (of_char a div 4),
      enc ! ((of_char a mod 4) * 16 + of_char b div 16),
      enc ! ((of_char b mod 16) * 4),
      StdPadding]"
| "EncodeToString enc [a] =
     [enc ! (of_char a div 4),
      enc ! ((of_char a mod 4) * 16),
      StdPadding,
      StdPadding]"
| "EncodeToString enc [] = []"

section \<open>The HTTP and daemon backends (package docker)\<close>

record Auth =
  Username :: string
  Password :: string

text \<open>The zero value of \<^verbatim>\<open>Auth\<close>, which \<^verbatim>\<open>var auth Auth\<close> declares.\<close>

definition Auth_zero :: Auth where
  "Auth_zero = \<lparr>Username = '''', Password = ''''\<rparr>"

text \<open>
  \<^verbatim>\<open>command.EncodeAuthToBase64\<close> of docker/cli marshals the \<^verbatim>\<open>AuthConfig\<close> to JSON and
  encodes the bytes with \<^verbatim>\<open>base64.URLEncoding\<close>. Every field of \<^verbatim>\<open>AuthConfig\<close> carries
  \<^verbatim>\<open>omitempty\<close>, and the code under study sets only \<^verbatim>\<open>Username\<close> and \<^verbatim>\<open>Password\<close>, so
  the JSON object has the members \<^verbatim>\<open>username\<close> and \<^verbatim>\<open>password\<close>, each only when its string
  is not empty. How \<^verbatim>\<open>encoding/json\<close> quotes a string is the parameter \<open>quote\<close>.
  Marshalling this struct cannot fail, so the result is always a token.
\<close>

definition json_AuthConfig :: "(string \<Rightarrow> string) \<Rightarrow> Auth \<Rightarrow> string" where
  \<open>json_AuthConfig quote a =
     ''{'' @ Join ((if Username a \<noteq> '''' then [''"username":'' @ quote (Username a)] else [])
                @ (if Password a \<noteq> '''' then [''"password":'' @ quote (Password a)] else []))
              '','' @ ''}''\<close>

definition EncodeAuthToBase64 :: "(string \<Rightarrow> string) \<Rightarrow> Auth \<Rightarrow> error + string" where
  "EncodeAuthToBase64 quote a = Inr (EncodeToString encodeURL (json_AuthConfig quote a))"

text \<open>
  The options of \<^verbatim>\<open>remote\<close> (go-containerregistry) that the code builds: the transport
  of \<^verbatim>\<open>NewRegistryClient\<close> and basic authentication. Durations are in seconds.
\<close>

record Transport =
  Dialer_Timeout :: nat
  Dialer_KeepAlive :: nat
  ForceAttemptHTTP2 :: bool
  MaxIdleConns :: nat
  IdleConnTimeout :: nat
  TLSHandshakeTimeout :: nat
  ExpectContinueTimeout :: nat
  InsecureSkipVerify :: bool

datatype remote_Option =
    remote_WithTransport Transport
  | remote_WithAuth_Basic string string

record RegistryClient =
  auth :: "string \<rightharpoonup> Auth"
  options :: "remote_Option list"

text \<open>\<^verbatim>\<open>dockertypes.ImagePullOptions\<close>; the zero value has an empty \<^verbatim>\<open>RegistryAuth\<close>.\<close>

record ImagePullOptions =
  RegistryAuth :: string

text \<open>
  A call either returns or panics. Go panics when a method is called on a nil interface
  value, which is what \<^verbatim>\<open>ioutil.ReadAll\<close> does with a nil reader.
\<close>

datatype 'a outcome = Returns 'a | Panics

text \<open>
  \<^verbatim>\<open>(client *RegistryClient) Pull\<close> of the daemon backend. The parameters are the library
  calls: \<open>NewClientWithOpts\<close> is the error of \<^verbatim>\<open>dockercli.NewClientWithOpts\<close> if any,
  \<open>ImagePull\<close> is \<^verbatim>\<open>c.ImagePull(client.ctx, repo, opts)\<close>, which returns \<^verbatim>\<open>(nil, err)\<close> when
  it fails, and \<open>ReadAll\<close> is \<^verbatim>\<open>ioutil.ReadAll\<close> on a stream that is not nil. The error
  of \<open>EncodeAuth\<close> and the error of \<open>ImagePull\<close> are both assigned to \<^verbatim>\<open>err\<close> and
  overwritten before \<^verbatim>\<open>err\<close> is read. The second component of the result is the list of
  pull requests sent to the daemon.
\<close>

definition docker_Pull ::
  "error option \<Rightarrow> (string \<Rightarrow> error + Named) \<Rightarrow> (Auth \<Rightarrow> error + string) \<Rightarrow>
   (string \<Rightarrow> ImagePullOptions \<Rightarrow> error + 's) \<Rightarrow> ('s \<Rightarrow> error + string) \<Rightarrow>
   RegistryClient \<Rightarrow> string \<Rightarrow> (error + string) outcome \<times> (string \<times> ImagePullOptions) list"
where
  "docker_Pull NewClientWithOpts ParseDockerRef EncodeAuth ImagePull ReadAll client repo =
     (case NewClientWithOpts of
        Some err \<Rightarrow> (Returns (Inl err), [])
      | None \<Rightarrow>
     (case ParseDockerRef repo of
        Inl err \<Rightarrow> (Returns (Inl err), [])
      | Inr named \<Rightarrow>
     (let domain = Named_Domain named;
          a = (case auth client domain of Some v \<Rightarrow> v | None \<Rightarrow> Auth_zero);
          token = (case EncodeAuth \<lparr>Username = Username a, Password = Password a\<rparr> of
                     Inr t \<Rightarrow> t
                   | Inl err \<Rightarrow> '''');
          opts = (if token = '''' then \<lparr>RegistryAuth = ''''\<rparr> else \<lparr>RegistryAuth = token\<rparr>)
      in (case ImagePull repo opts of
            Inl err \<Rightarrow> Panics
          | Inr closer \<Rightarrow>
              (case ReadAll closer of
                 Inl err \<Rightarrow> Returns (Inl err)
               | Inr body \<Rightarrow> Returns (Inr (Named_String named))),
          [(repo, opts)]))))"

text \<open>
  The token that \<^verbatim>\<open>Pull\<close> computes for a parsed reference (the lookup and the
  encoding before the pull request), named for the statements below.
\<close>

definition pull_token :: "(Auth \<Rightarrow> error + string) \<Rightarrow> RegistryClient \<Rightarrow> Named \<Rightarrow> string" where
  "pull_token EncodeAuth client named =
     (case EncodeAuth (case auth client (Named_Domain named) of
                                   Some v \<Rightarrow> v | None \<Rightarrow> Auth_zero) of
                  Inr t \<Rightarrow> t | Inl err \<Rightarrow> '''')"

section \<open>The HTTP backend: registry introspection\<close>

text \<open>
  \<^verbatim>\<open>GetRepo\<close>. The library calls are parameters: \<open>ParseDockerRef\<close> as before,
  \<open>name_ParseReference\<close> is \<^verbatim>\<open>name.ParseReference\<close>, and \<open>remote_Get\<close> is \<^verbatim>\<open>remote.Get\<close>,
  whose result is returned as it is. The Go parameter \<^verbatim>\<open>options\<close> is \<open>opts\<close> here.
\<close>

definition GetRepo ::
  "(string \<Rightarrow> error + Named) \<Rightarrow> (string \<Rightarrow> error + 'r) \<Rightarrow>
   ('r \<Rightarrow> remote_Option list \<Rightarrow> error + 'd) \<Rightarrow>
   RegistryClient \<Rightarrow> string \<Rightarrow> remote_Option list \<Rightarrow> error + 'd"
where
  "GetRepo ParseDockerRef name_ParseReference remote_Get client repo opts =
     (let opts1 = opts @ options client
      in case ParseDockerRef repo of
           Inl err \<Rightarrow> Inl err
         | Inr named \<Rightarrow>
             (let domain = Named_Domain named;
                  a = (case auth client domain of Some v \<Rightarrow> v | None \<Rightarrow> Auth_zero);
                  opts2 = (if Username a \<noteq> '''' \<and> Password a \<noteq> ''''
                           then opts1 @ [remote_WithAuth_Basic (Username a) (Password a)]
                           else opts1)
              in case name_ParseReference repo of
                   Inl err \<Rightarrow> Inl err
                 | Inr ref \<Rightarrow> remote_Get ref opts2))"

text \<open>
  \<^verbatim>\<open>GetRepoTags\<close>, with \<open>name_NewRepository\<close> for \<^verbatim>\<open>name.NewRepository\<close> and
  \<open>remote_List\<close> for \<^verbatim>\<open>remote.List\<close>.
\<close>

definition GetRepoTags ::
  "(string \<Rightarrow> error + Named) \<Rightarrow> (string \<Rightarrow> error + 'r) \<Rightarrow>
   ('r \<Rightarrow> remote_Option list \<Rightarrow> error + string list) \<Rightarrow>
   RegistryClient \<Rightarrow> string \<Rightarrow> remote_Option list \<Rightarrow> error + string list"
where
  "GetRepoTags ParseDockerRef name_NewRepository remote_List client repo opts =
     (let opts1 = opts @ options client
      in case ParseDockerRef repo of
           Inl err \<Rightarrow> Inl err
         | Inr named \<Rightarrow>
             (let domain = Named_Domain named;
                  a = (case auth client domain of Some v \<Rightarrow> v | None \<Rightarrow> Auth_zero);
                  opts2 = (if Username a \<noteq> '''' \<and> Password a \<noteq> ''''
                           then opts1 @ [remote_WithAuth_Basic (Username a) (Password a)]
                           else opts1)
              in case name_NewRepository repo of
                   Inl err \<Rightarrow> Inl err
                 | Inr repoR \<Rightarrow> remote_List repoR opts2))"

text \<open>
  The loop of \<^verbatim>\<open>GetRepos\<close>, which has no bound of its own: it ends when a page request
  fails or a page comes back empty. \<open>None\<close> is the loop that never ends. The state is the
  cursor \<^verbatim>\<open>last\<close> (here \<open>last'\<close>) and the accumulator \<^verbatim>\<open>repos\<close>; the result is the pair
  \<^verbatim>\<open>(repos, err)\<close> that \<^verbatim>\<open>GetRepos\<close> returns. \<open>CatalogPage\<close> is
  \<^verbatim>\<open>remote.CatalogPage\<close> with the registry and the options fixed.
\<close>

partial_function (option) GetRepos_loop ::
  "(string \<Rightarrow> nat \<Rightarrow> error + string list) \<Rightarrow> string \<Rightarrow> string list \<Rightarrow>
   (string list \<times> error option) option"
where
  "GetRepos_loop CatalogPage last' repos =
     (case CatalogPage last' 10000 of
        Inl err \<Rightarrow> Some (repos, Some err)
      | Inr reposTemp \<Rightarrow>
          (if length reposTemp > 0
           then GetRepos_loop CatalogPage (reposTemp ! (length reposTemp - 1))
                  (repos @ reposTemp)
           else Some (repos, None)))"

text \<open>
  \<^verbatim>\<open>GetRepos\<close>. \<open>name_NewRegistry\<close> is \<^verbatim>\<open>name.NewRegistry\<close>; a registry value is
  identified with the string it renders to (\<^verbatim>\<open>registry.String()\<close>). When the address is
  rejected the function returns \<^verbatim>\<open>(nil, err)\<close>.
\<close>

definition GetRepos ::
  "(string \<Rightarrow> error + string) \<Rightarrow>
   (string \<Rightarrow> string \<Rightarrow> nat \<Rightarrow> remote_Option list \<Rightarrow> error + string list) \<Rightarrow>
   RegistryClient \<Rightarrow> string \<Rightarrow> remote_Option list \<Rightarrow> (string list \<times> error option) option"
where
  "GetRepos name_NewRegistry remote_CatalogPage client address opts =
     (let opts1 = opts @ options client;
          a = (case auth client address of Some v \<Rightarrow> v | None \<Rightarrow> Auth_zero);
          opts2 = (if Username a \<noteq> '''' \<and> Password a \<noteq> ''''
                   then opts1 @ [remote_WithAuth_Basic (Username a) (Password a)]
                   else opts1)
      in case name_NewRegistry address of
           Inl err \<Rightarrow> Some ([], Some err)
         | Inr regsitry \<Rightarrow>
             GetRepos_loop (\<lambda>last' n. remote_CatalogPage regsitry last' n opts2) '''' [])"

text \<open>
  Modelled from the spec: the registry that \<^verbatim>\<open>GetRepos\<close> talks to, which is not part of
  the repository. It holds the repository names \<open>rs\<close> in the order it reports them and
  answers a catalog request with at most \<open>n\<close> entries (and at most its own page limit
  \<open>cap\<close>) starting after the cursor; the empty cursor stands for the start.
\<close>

definition catalog_after :: "string list \<Rightarrow> string \<Rightarrow> string list" where
  "catalog_after rs last' =
     (if last' = '''' then rs else drop 1 (dropWhile (\<lambda>r. r \<noteq> last') rs))"

definition registry_CatalogPage ::
  "nat \<Rightarrow> string list \<Rightarrow> string \<Rightarrow> string \<Rightarrow> nat \<Rightarrow> remote_Option list \<Rightarrow> error + string list"
where
  "registry_CatalogPage cap rs regsitry last' n opts =
     Inr (take (min n cap) (catalog_after rs last'))"

text \<open>
  A run of page requests as the loop meets them: from the cursor \<open>last'\<close> on, the
  requests are answered with the non-empty pages \<open>ps\<close>, one after the other, and the
  request after the last of them fails with \<open>e\<close>.
\<close>

fun pages_then_error ::
  "(string \<Rightarrow> nat \<Rightarrow> error + string list) \<Rightarrow> string \<Rightarrow> string list list \<Rightarrow> error \<Rightarrow> bool"
where
  "pages_then_error CatalogPage last' [] e = (CatalogPage last' 10000 = Inl e)"
| "pages_then_error CatalogPage last' (p # ps) e =
     (CatalogPage last' 10000 = Inr p \<and> p \<noteq> [] \<and> pages_then_error CatalogPage (last p) ps e)"

section \<open>Library functions modelled for the credential store\<close>

text \<open>
  \<^verbatim>\<open>strings.Split(s, sep)\<close> for a separator of one byte, which is how the code calls it
  (\<^verbatim>\<open>":"\<close>): the pieces of \<open>s\<close> between the occurrences of \<open>sep\<close>, one more than there
  are occurrences.
\<close>

fun Split :: "string \<Rightarrow> char \<Rightarrow> string list" where
  "Split [] sep = [[]]"
| "Split (c # s) sep =
     (if c = sep then [] # Split s sep
      else (c # hd (Split s sep)) # tl (Split s sep))"

text \<open>
  \<^verbatim>\<open>(*Encoding).DecodeString\<close> of \<^verbatim>\<open>encoding/base64\<close> for a padded encoding that is not
  strict. \<open>decodeMap\<close> gives the value of a digit of the alphabet. The decoder skips
  carriage returns and line feeds wherever they stand, reads quanta of four digits, and
  accepts padding only to complete the last quantum; anything else is a
  \<^verbatim>\<open>CorruptInputError\<close>, and the caller then gets a non-nil error.
\<close>

fun decodeMap :: "string \<Rightarrow> char \<Rightarrow> nat option" where
  "decodeMap [] c = None"
| "decodeMap (x # enc) c = (if x = c then Some 0 else map_option Suc (decodeMap enc c))"

definition CorruptInputError :: error where
  "CorruptInputError = Error ''illegal base64 data''"

fun decodeQuantum :: "string \<Rightarrow> string \<Rightarrow> error + string" where
  "decodeQuantum enc (w # x # y # z # src) =
     (case decodeMap enc w of
        None \<Rightarrow> Inl CorruptInputError
      | Some d0 \<Rightarrow>
     (case decodeMap enc x of
        None \<Rightarrow> Inl CorruptInputError
      | Some d1 \<Rightarrow>
     (case decodeMap enc y of
        None \<Rightarrow>
          (if y = StdPadding \<and> z = StdPadding \<and> src = []
           then Inr [char_of (d0 * 4 + d1 div 16)]
           else Inl CorruptInputError)
      | Some d2 \<Rightarrow>
     (case decodeMap enc z of
        None \<Rightarrow>
          (if z = StdPadding \<and> src = []
           then Inr [char_of (d0 * 4 + d1 div 16), char_of ((d1 mod 16) * 16 + d2 div 4)]
           else Inl CorruptInputError)
      | Some d3 \<Rightarrow>
          (case decodeQuantum enc src of
             Inl err \<Rightarrow> Inl err
           | Inr out \<Rightarrow>
               Inr ([char_of (d0 * 4 + d1 div 16),
                     char_of ((d1 mod 16) * 16 + d2 div 4),
                     char_of ((d2 mod 4) * 64 + d3)] @ out))))))"
| "decodeQuantum enc [] = Inr []"
| "decodeQuantum enc src = Inl CorruptInputError"

definition DecodeString :: "string \<Rightarrow> string \<Rightarrow> error + string" where
  "DecodeString enc s =
     decodeQuantum enc (filter (\<lambda>c. c \<noteq> CHR 0x0A \<and> c \<noteq> CHR 0x0D) s)"

section \<open>The credential store and the client factory (package docker)\<close>

type_synonym Option = "RegistryClient \<Rightarrow> error + RegistryClient"

text \<open>
  \<^verbatim>\<open>WithAuth\<close>. \<open>name_NewRegistry\<close> is \<^verbatim>\<open>name.NewRegistry\<close> followed by
  \<^verbatim>\<open>registry.String()\<close>: the canonical name of the registry, or the error for an address
  that is not a registry. On an error the client is left as it was.
\<close>

definition WithAuth :: "(string \<Rightarrow> error + string) \<Rightarrow> string \<Rightarrow> Auth \<Rightarrow> Option" where
  "WithAuth name_NewRegistry address a c =
     (case name_NewRegistry address of
        Inl err \<Rightarrow> Inl err
      | Inr registry \<Rightarrow> Inr (c\<lparr>auth := (auth c)(registry \<mapsto> a)\<rparr>))"

text \<open>
  The loop over the options in \<^verbatim>\<open>NewRegistryClient\<close>: an option that fails is logged and
  skipped. Logging has no effect on the client and is left out throughout.
\<close>

fun options_handle :: "RegistryClient \<Rightarrow> Option list \<Rightarrow> RegistryClient" where
  "options_handle c [] = c"
| "options_handle c (opt # opts) =
     (case opt c of
        Inl err \<Rightarrow> options_handle c opts
      | Inr cNew \<Rightarrow> options_handle cNew opts)"

text \<open>
  What reading \<^verbatim>\<open>/root/.docker/config.json\<close> comes to: the file does not exist, it cannot
  be read, it is not the JSON of a \<^verbatim>\<open>ConfigFile\<close>, or it yields the map \<^verbatim>\<open>AuthConfigs\<close>.
  The map is given as the list of its entries in the order in which the \<^verbatim>\<open>range\<close> loop
  visits them (an order Go does not fix), each entry a server key with the \<^verbatim>\<open>Auth\<close> field
  of its block, the only field the code reads.
\<close>

definition dockerConfigPath :: string where
  "dockerConfigPath = ''/root/.docker/config.json''"

datatype dockerConfig =
    NotExist
  | ReadFile_failed error
  | Unmarshal_failed error
  | AuthConfigs "(string \<times> string) list"

text \<open>
  The body of the loop over \<^verbatim>\<open>dockerConfig.AuthConfigs\<close>. \<open>url_Parse\<close> is \<^verbatim>\<open>url.Parse\<close>
  followed by \<^verbatim>\<open>u.Host\<close>, and \<open>Decode\<close> is \<^verbatim>\<open>base64.StdEncoding.DecodeString\<close>.
\<close>

definition config_entry ::
  "(string \<Rightarrow> error + string) \<Rightarrow> (string \<Rightarrow> error + string) \<Rightarrow> (string \<Rightarrow> error + string) \<Rightarrow>
   RegistryClient \<Rightarrow> string \<times> string \<Rightarrow> RegistryClient"
where
  "config_entry url_Parse name_NewRegistry Decode c entry =
     (let server = fst entry; config_Auth = snd entry;
          registryName = (case url_Parse server of
                            Inl err \<Rightarrow> server
                          | Inr u_Host \<Rightarrow> u_Host)
      in case name_NewRegistry registryName of
           Inl err \<Rightarrow> c
         | Inr registry \<Rightarrow>
             (if config_Auth \<noteq> ''''
              then (case Decode config_Auth of
                      Inr authDecode \<Rightarrow>
                        (let authSplit = Split authDecode CHR '':''
                         in if length authSplit = 2
                            then c\<lparr>auth := (auth c)(registry \<mapsto>
                                   \<lparr>Username = authSplit ! 0, Password = authSplit ! 1\<rparr>)\<rparr>
                            else c)
                    | Inl err \<Rightarrow> c)
              else c))"

text \<open>
  \<^verbatim>\<open>NewRegistryClient\<close>: the options, then the configuration file, then the transport.
  It never returns an error.
\<close>

definition NewRegistryClient ::
  "(string \<Rightarrow> error + string) \<Rightarrow> (string \<Rightarrow> error + string) \<Rightarrow> (string \<Rightarrow> error + string) \<Rightarrow>
   Option list \<Rightarrow> dockerConfig \<Rightarrow> RegistryClient"
where
  "NewRegistryClient url_Parse name_NewRegistry Decode opts config =
     (let c0 = \<lparr>auth = Map.empty, options = []\<rparr>;
          c1 = options_handle c0 opts;
          c2 = (case config of
                  AuthConfigs entries \<Rightarrow>
                    foldl (config_entry url_Parse name_NewRegistry Decode) c1 entries
                | NotExist \<Rightarrow> c1
                | ReadFile_failed err \<Rightarrow> c1
                | Unmarshal_failed err \<Rightarrow> c1)
      in c2\<lparr>options :=
              [remote_WithTransport
                 \<lparr>Dialer_Timeout = 5, Dialer_KeepAlive = 30, ForceAttemptHTTP2 = True,
                  MaxIdleConns = 100, IdleConnTimeout = 90, TLSHandshakeTimeout = 10,
                  ExpectContinueTimeout = 1, InsecureSkipVerify = True\<rparr>]\<rparr>)"

text \<open>
  The writes to the credential map in the words of the spec. An override writes its
  credential under the validated domain. A file entry writes under the host of its
  server key (or the raw key when it is not a URL), once validated, the credential whose
  username is what stands before the colon of the decoded auth block and whose password
  is what stands after it, provided the block is present, decodes and has exactly one
  colon. The last writer for a domain is the last write under it.
\<close>

definition override_write ::
  "(string \<Rightarrow> error + string) \<Rightarrow> string \<times> Auth \<Rightarrow> (string \<times> Auth) option"
where
  "override_write name_NewRegistry ov =
     (case name_NewRegistry (fst ov) of
        Inl err \<Rightarrow> None
      | Inr d \<Rightarrow> Some (d, snd ov))"

definition file_write ::
  "(string \<Rightarrow> error + string) \<Rightarrow> (string \<Rightarrow> error + string) \<Rightarrow> (string \<Rightarrow> error + string) \<Rightarrow>
   string \<times> string \<Rightarrow> (string \<times> Auth) option"
where
  "file_write url_Parse name_NewRegistry Decode entry =
     (case name_NewRegistry (case url_Parse (fst entry) of
                               Inr host \<Rightarrow> host
                             | Inl err \<Rightarrow> fst entry) of
        Inl err \<Rightarrow> None
      | Inr d \<Rightarrow>
          (if snd entry = '''' then None
           else (case Decode (snd entry) of
                   Inl err \<Rightarrow> None
                 | Inr s \<Rightarrow>
                     (if count_list s CHR '':'' = 1
                      then Some (d, \<lparr>Username = takeWhile (\<lambda>x. x \<noteq> CHR '':'') s,
                                     Password = drop 1 (dropWhile (\<lambda>x. x \<noteq> CHR '':'') s)\<rparr>)
                      else None))))"

definition file_entries :: "dockerConfig \<Rightarrow> (string \<times> string) list" where
  "file_entries config = (case config of AuthConfigs entries \<Rightarrow> entries | _ \<Rightarrow> [])"

definition last_writer :: "string \<Rightarrow> (string \<times> Auth) list \<Rightarrow> Auth option" where
  "last_writer d ws =
     (case filter (\<lambda>w. fst w = d) ws of
        [] \<Rightarrow> None
      | w # ws' \<Rightarrow> Some (snd (last (w # ws'))))"

text \<open>One write to the credential map of a client.\<close>

definition store_write :: "RegistryClient \<Rightarrow> string \<times> Auth \<Rightarrow> RegistryClient" where
  "store_write c w = c\<lparr>auth := (auth c)(fst w \<mapsto> snd w)\<rparr>"

section \<open>Properties of the runtime backend\<close>

text \<open>
  C8. A pull on the runtime backend succeeds exactly when the runtime's own pull of the
  reference (canonicalised when it parses, raw otherwise) succeeds, and the identifier
  returned is then the fixed namespace, a slash, and the content digest of the pulled
  image's target.
\<close>

theorem containerd_Pull_identifier:
  "containerd_Pull ParseDockerRef client_Pull repo = Inr imageID \<longleftrightarrow>
     (\<exists>img.
        client_Pull (case ParseDockerRef repo of
                       Inr named \<Rightarrow> Named_String named
                     | Inl err \<Rightarrow> repo) = Inr img
        \<and> imageID = ''veinmind-runner'' @ ''/'' @ Target_Digest img)"
  by (auto simp: containerd_Pull_def ns_def Let_def split: sum.splits)

section \<open>Properties of the daemon backend\<close>

lemma Auth_rebuild [simp]:
  "\<lparr>Username = Username a, Password = Password a\<rparr> = (a :: Auth)"
  by (cases a) simp

text \<open>
  The pull of the daemon backend once the daemon client exists: the request that is
  sent carries the computed token, whether or not that token is empty.
\<close>

lemma docker_Pull_parsed:
  "docker_Pull None ParseDockerRef EncodeAuth ImagePull ReadAll client repo =
     (case ParseDockerRef repo of
        Inl err \<Rightarrow> (Returns (Inl err), [])
      | Inr named \<Rightarrow>
          (case ImagePull repo \<lparr>RegistryAuth = pull_token EncodeAuth client named\<rparr> of
             Inl err \<Rightarrow> Panics
           | Inr closer \<Rightarrow>
               (case ReadAll closer of
                  Inl err \<Rightarrow> Returns (Inl err)
                | Inr body \<Rightarrow> Returns (Inr (Named_String named))),
           [(repo, \<lparr>RegistryAuth = pull_token EncodeAuth client named\<rparr>)]))"
  by (simp add: docker_Pull_def Let_def pull_token_def split: sum.splits)

lemma docker_Pull_no_client:
  "docker_Pull (Some err) ParseDockerRef EncodeAuth ImagePull ReadAll client repo =
     (Returns (Inl err), [])"
  by (simp add: docker_Pull_def)

lemma EncodeAuthToBase64_zero:
  "EncodeAuthToBase64 quote Auth_zero = Inr ''e30=''"
  by (simp add: EncodeAuthToBase64_def json_AuthConfig_def Auth_zero_def encodeURL_def
      StdPadding_def)

text \<open>
  A credential that is in the store for the domain of the reference is encoded, and the
  pull request carries its token.
\<close>

lemma docker_Pull_sends_credential_token:
  assumes "ParseDockerRef repo = Inr named"
    and "auth client (Named_Domain named) = Some cred"
    and "EncodeAuth cred = Inr token" and "token \<noteq> ''''"
  shows "snd (docker_Pull None ParseDockerRef EncodeAuth ImagePull ReadAll client repo) =
           [(repo, \<lparr>RegistryAuth = token\<rparr>)]"
  using assms by (simp add: docker_Pull_parsed pull_token_def)

text \<open>
  C4. With no credential in the store for the domain of the reference, the pull request of
  the daemon backend still carries a token: \<^verbatim>\<open>e30=\<close>, the URL-safe base64 of the JSON
  object \<^verbatim>\<open>{}\<close>. The branch for an empty token is never taken, because the encoder
  never returns the empty string.
\<close>

theorem docker_Pull_empty_store_sends_token:
  "snd (docker_Pull None
          (\<lambda>r. Inr \<lparr>Named_Domain = ''docker.io'',
                     Named_String = ''docker.io/library/ubuntu:latest''\<rparr>)
          (EncodeAuthToBase64 quote) ImagePull ReadAll
          \<lparr>auth = Map.empty, options = []\<rparr> ''ubuntu'')
   = [(''ubuntu'', \<lparr>RegistryAuth = ''e30=''\<rparr>)]"
  by (simp add: docker_Pull_parsed pull_token_def EncodeAuthToBase64_zero)

text \<open>
  C7. For a reference that parses, a pull on the daemon backend returns without error
  exactly when the daemon client is created, the daemon answers the pull request with a
  stream and the stream is read to its end; the identifier returned is then the parsed
  reference rendered as a string.
\<close>

theorem docker_Pull_returns_reference_string:
  assumes "ParseDockerRef repo = Inr named"
  shows "fst (docker_Pull NewClientWithOpts ParseDockerRef EncodeAuth ImagePull ReadAll
                client repo) = Returns (Inr imageID) \<longleftrightarrow>
           NewClientWithOpts = None
           \<and> (\<exists>opts closer body.
                 snd (docker_Pull NewClientWithOpts ParseDockerRef EncodeAuth ImagePull
                        ReadAll client repo) = [(repo, opts)]
                 \<and> ImagePull repo opts = Inr closer \<and> ReadAll closer = Inr body)
           \<and> imageID = Named_String named"
proof (cases NewClientWithOpts)
  case (Some err)
  then show ?thesis by (simp add: docker_Pull_no_client)
next
  case None
  then show ?thesis
    using assms by (auto simp: docker_Pull_parsed split: sum.splits)
qed

theorem docker_Pull_returns_reference_string_witness:
  "fst (docker_Pull None
          (\<lambda>r. Inr \<lparr>Named_Domain = ''docker.io'',
                     Named_String = ''docker.io/library/ubuntu:latest''\<rparr>)
          (\<lambda>a. Inr ''token'') (\<lambda>r opts. Inr (0::nat)) (\<lambda>s. Inr ''{}'')
          \<lparr>auth = Map.empty, options = []\<rparr> ''ubuntu'')
   = Returns (Inr ''docker.io/library/ubuntu:latest'')"
  using docker_Pull_returns_reference_string [of
        "\<lambda>r. Inr \<lparr>Named_Domain = ''docker.io'',
                     Named_String = ''docker.io/library/ubuntu:latest''\<rparr>"
        "''ubuntu''"
        "\<lparr>Named_Domain = ''docker.io'', Named_String = ''docker.io/library/ubuntu:latest''\<rparr>"
        None "\<lambda>a. Inr ''token''"
        "\<lambda>r opts. Inr (0::nat)" "\<lambda>s. Inr ''{}''" "\<lparr>auth = Map.empty, options = []\<rparr>"
        "''docker.io/library/ubuntu:latest''"]
  by (simp add: docker_Pull_def)

text \<open>
  C9. When the daemon rejects the pull request that was sent, the pull of the daemon
  backend does not return that error: the stream handle is nil, and reading it panics.
\<close>

theorem docker_Pull_request_error_not_returned:
  assumes "snd (docker_Pull NewClientWithOpts ParseDockerRef EncodeAuth ImagePull ReadAll
                  client repo) = [(repo, opts)]"
    and "ImagePull repo opts = Inl err"
  shows "fst (docker_Pull NewClientWithOpts ParseDockerRef EncodeAuth ImagePull ReadAll
                client repo) = Panics
         \<and> fst (docker_Pull NewClientWithOpts ParseDockerRef EncodeAuth ImagePull ReadAll
                client repo) \<noteq> Returns (Inl err)"
proof (cases NewClientWithOpts)
  case (Some e)
  with assms(1) show ?thesis by (simp add: docker_Pull_no_client)
next
  case None
  show ?thesis
  proof (cases "ParseDockerRef repo")
    case (Inl e)
    with None assms(1) show ?thesis by (simp add: docker_Pull_def)
  next
    case (Inr named)
    with None assms show ?thesis by (simp add: docker_Pull_parsed)
  qed
qed

theorem docker_Pull_request_error_not_returned_witness:
  "fst (docker_Pull None
          (\<lambda>r. Inr \<lparr>Named_Domain = ''docker.io'',
                     Named_String = ''docker.io/library/ubuntu:latest''\<rparr>)
          (\<lambda>a. Inr ''token'') (\<lambda>r opts. (Inl (Error ''no such image'') :: error + nat))
          (\<lambda>s. Inr ''{}'')
          \<lparr>auth = Map.empty, options = []\<rparr> ''ubuntu'')
   = Panics"
  using docker_Pull_request_error_not_returned [of None
      "\<lambda>r. Inr \<lparr>Named_Domain = ''docker.io'',
                     Named_String = ''docker.io/library/ubuntu:latest''\<rparr>"
      "\<lambda>a. Inr ''token''" "\<lambda>r opts. (Inl (Error ''no such image'') :: error + nat)"
      "\<lambda>s. Inr ''{}''" "\<lparr>auth = Map.empty, options = []\<rparr>" "''ubuntu''"
      "\<lparr>RegistryAuth = ''token''\<rparr>" "Error ''no such image''"]
  by (simp add: docker_Pull_def)

section \<open>Properties of the HTTP backend\<close>

text \<open>
  C6. For a reference that parses, \<^verbatim>\<open>GetRepo\<close> and \<^verbatim>\<open>GetRepoTags\<close> hand the library
  the caller's options, then the client's, then basic authentication with the stored
  username and password when the store has a credential for the reference's domain whose
  username and password are both non-empty; with no credential, or with one that has an
  empty username or an empty password, they add no authentication.
\<close>

theorem GetRepo_auth_injection:
  assumes "ParseDockerRef repo = Inr named"
  shows "GetRepo ParseDockerRef name_ParseReference remote_Get client repo opts =
           (case name_ParseReference repo of
              Inl err \<Rightarrow> Inl err
            | Inr ref \<Rightarrow>
                remote_Get ref
                  (opts @ options client @
                     (case auth client (Named_Domain named) of
                        Some v \<Rightarrow> if Username v \<noteq> '''' \<and> Password v \<noteq> ''''
                                  then [remote_WithAuth_Basic (Username v) (Password v)]
                                  else []
                      | None \<Rightarrow> [])))
         \<and> GetRepoTags ParseDockerRef name_NewRepository remote_List client repo opts =
           (case name_NewRepository repo of
              Inl err \<Rightarrow> Inl err
            | Inr repoR \<Rightarrow>
                remote_List repoR
                  (opts @ options client @
                     (case auth client (Named_Domain named) of
                        Some v \<Rightarrow> if Username v \<noteq> '''' \<and> Password v \<noteq> ''''
                                  then [remote_WithAuth_Basic (Username v) (Password v)]
                                  else []
                      | None \<Rightarrow> [])))"
  using assms
  by (auto simp: GetRepo_def GetRepoTags_def Let_def Auth_zero_def
      split: option.splits sum.splits)

theorem GetRepo_auth_injection_witness:
  "GetRepo (\<lambda>r. Inr \<lparr>Named_Domain = ''reg.io'', Named_String = ''reg.io/app:latest''\<rparr>)
     (\<lambda>r. Inr r) (\<lambda>ref opts. Inr opts)
     \<lparr>auth = [''reg.io'' \<mapsto> \<lparr>Username = ''user'', Password = ''pass''\<rparr>], options = []\<rparr>
     ''reg.io/app'' []
   = Inr [remote_WithAuth_Basic ''user'' ''pass'']
   \<and> GetRepoTags (\<lambda>r. Inr \<lparr>Named_Domain = ''reg.io'', Named_String = ''reg.io/app:latest''\<rparr>)
     (\<lambda>r. Inr r) (\<lambda>repoR opts. Inr [''latest'', ''v'' @ [if opts = [] then CHR ''0'' else CHR ''1'']])
     \<lparr>auth = [''reg.io'' \<mapsto> \<lparr>Username = ''user'', Password = ''pass''\<rparr>], options = []\<rparr>
     ''reg.io/app'' []
   = Inr [''latest'', ''v1'']"
  using GetRepo_auth_injection [of
      "\<lambda>r. Inr \<lparr>Named_Domain = ''reg.io'', Named_String = ''reg.io/app:latest''\<rparr>"
      "''reg.io/app''"
      "\<lparr>Named_Domain = ''reg.io'', Named_String = ''reg.io/app:latest''\<rparr>"
      "\<lambda>r. Inr r" "\<lambda>ref opts. Inr opts"
      "\<lparr>auth = [''reg.io'' \<mapsto> \<lparr>Username = ''user'', Password = ''pass''\<rparr>], options = []\<rparr>"
      "[]"
      "\<lambda>r. Inr r"
      "\<lambda>repoR opts. Inr [''latest'', ''v'' @ [if opts = [] then CHR ''0'' else CHR ''1'']]"]
  by simp

text \<open>
  A credential that is in the store but has an empty password is not attached: the
  library receives no option at all.
\<close>

theorem GetRepo_stored_credential_not_attached:
  "auth \<lparr>auth = [''reg.io'' \<mapsto> \<lparr>Username = ''user'', Password = ''''\<rparr>], options = []\<rparr>
     ''reg.io'' = Some \<lparr>Username = ''user'', Password = ''''\<rparr>
   \<and> GetRepo (\<lambda>r. Inr \<lparr>Named_Domain = ''reg.io'', Named_String = ''reg.io/app:latest''\<rparr>)
       (\<lambda>r. Inr r) (\<lambda>ref opts. Inr opts)
       \<lparr>auth = [''reg.io'' \<mapsto> \<lparr>Username = ''user'', Password = ''''\<rparr>], options = []\<rparr>
       ''reg.io/app'' []
     = Inr []
   \<and> GetRepoTags (\<lambda>r. Inr \<lparr>Named_Domain = ''reg.io'', Named_String = ''reg.io/app:latest''\<rparr>)
       (\<lambda>r. Inr r) (\<lambda>repoR opts. Inl (Error (if opts = [] then ''unauthorized'' else ''other'')))
       \<lparr>auth = [''reg.io'' \<mapsto> \<lparr>Username = ''user'', Password = ''''\<rparr>], options = []\<rparr>
       ''reg.io/app'' []
     = Inl (Error ''unauthorized'')"
  by (simp add: GetRepo_def GetRepoTags_def)

subsection \<open>Catalog pagination\<close>

text \<open>
  A run of pages followed by a failing request: the loop appends every page and returns
  what it has with the error.
\<close>

lemma GetRepos_loop_pages_then_error:
  "pages_then_error CatalogPage last' ps e \<Longrightarrow>
   GetRepos_loop CatalogPage last' repos = Some (repos @ concat ps, Some e)"
proof (induction ps arbitrary: last' repos)
  case Nil
  then show ?case by (subst GetRepos_loop.simps) simp
next
  case (Cons p ps)
  from Cons.prems have page: "CatalogPage last' 10000 = Inr p" and ne: "p \<noteq> []"
    and rest: "pages_then_error CatalogPage (last p) ps e"
    by simp_all
  have "GetRepos_loop CatalogPage last' repos =
        GetRepos_loop CatalogPage (last p) (repos @ p)"
    using page ne by (subst GetRepos_loop.simps) (simp add: last_conv_nth)
  also have "\<dots> = Some ((repos @ p) @ concat ps, Some e)"
    by (rule Cons.IH [OF rest])
  finally show ?case by simp
qed

text \<open>
  C5. When the page requests of \<^verbatim>\<open>GetRepos\<close> are answered with non-empty pages and
  the next request fails, \<^verbatim>\<open>GetRepos\<close> returns the names of all the pages received, in
  order, together with that error.
\<close>

theorem GetRepos_error_keeps_pages:
  assumes "name_NewRegistry address = Inr regsitry"
    and "pages_then_error
           (\<lambda>last' n. remote_CatalogPage regsitry last' n
              (opts @ options client @
                 (case auth client address of
                    Some v \<Rightarrow> if Username v \<noteq> '''' \<and> Password v \<noteq> ''''
                              then [remote_WithAuth_Basic (Username v) (Password v)] else []
                  | None \<Rightarrow> [])))
           '''' ps e"
  shows "GetRepos name_NewRegistry remote_CatalogPage client address opts =
           Some (concat ps, Some e)"
  using assms(1) GetRepos_loop_pages_then_error [OF assms(2), of "[]"]
  by (auto simp: GetRepos_def Let_def Auth_zero_def split: option.splits)

theorem GetRepos_error_keeps_pages_witness:
  "GetRepos (\<lambda>a. Inr a)
     (\<lambda>regsitry last' n opts.
        if last' = '''' then Inr [''a'', ''b'']
        else if last' = ''b'' then Inr [''c'']
        else Inl (Error ''timeout''))
     \<lparr>auth = Map.empty, options = []\<rparr> ''registry.example.com'' []
   = Some ([''a'', ''b'', ''c''], Some (Error ''timeout''))"
  using GetRepos_error_keeps_pages [of "\<lambda>a. Inr a" "''registry.example.com''"
      "''registry.example.com''"
      "\<lambda>regsitry last' n opts.
        if last' = '''' then Inr [''a'', ''b'']
        else if last' = ''b'' then Inr [''c'']
        else Inl (Error ''timeout'')"
      "[]" "\<lparr>auth = Map.empty, options = []\<rparr>" "[[''a'', ''b''], [''c'']]"
      "Error ''timeout''"]
  by simp

text \<open>
  The registry's answer after the last name of a prefix of its list is the rest of the
  list, when no name occurs twice and none is empty.
\<close>

lemma catalog_after_snoc:
  assumes "x \<notin> set bs" and "x \<noteq> ''''"
  shows "catalog_after (bs @ x # ys) x = ys"
proof -
  have "dropWhile (\<lambda>r. r \<noteq> x) (bs @ x # ys) = dropWhile (\<lambda>r. r \<noteq> x) (x # ys)"
    using assms(1) by (intro dropWhile_append2) auto
  then show ?thesis using assms(2) by (simp add: catalog_after_def)
qed

lemma catalog_after_last:
  assumes "distinct (xs @ ys)" and "xs \<noteq> []" and "'''' \<notin> set xs"
  shows "catalog_after (xs @ ys) (last xs) = ys"
proof -
  obtain bs x where xs: "xs = bs @ [x]"
    using assms(2) by (metis append_butlast_last_id)
  have "x \<notin> set bs" using assms(1) xs by auto
  moreover have "x \<noteq> ''''" using assms(3) xs by auto
  ultimately have "catalog_after (bs @ x # ys) x = ys" by (rule catalog_after_snoc)
  then show ?thesis using xs by simp
qed

text \<open>
  The loop invariant: the accumulator \<open>xs\<close> is a non-empty prefix of the registry's
  list and the cursor is its last name. The rest \<open>ys\<close> gets shorter with every page.
\<close>

lemma GetRepos_loop_registry:
  assumes "distinct (xs @ ys)" and "'''' \<notin> set (xs @ ys)" and "xs \<noteq> []" and "0 < cap"
  shows "GetRepos_loop (\<lambda>last' n. registry_CatalogPage cap (xs @ ys) regsitry last' n opts)
           (last xs) xs = Some (xs @ ys, None)"
  using assms
proof (induction "length ys" arbitrary: xs ys rule: less_induct)
  case less
  let ?page = "\<lambda>last' n. registry_CatalogPage cap (xs @ ys) regsitry last' n opts"
  have after: "catalog_after (xs @ ys) (last xs) = ys"
    using less.prems by (intro catalog_after_last) auto
  show ?case
  proof (cases "ys = []")
    case True
    with after show ?thesis
      by (subst GetRepos_loop.simps) (simp add: registry_CatalogPage_def)
  next
    case False
    define k where "k = min 10000 cap"
    define p where "p = take k ys"
    have k: "0 < k" using less.prems(4) by (simp add: k_def)
    have p: "p \<noteq> []" using False k by (simp add: p_def)
    have page: "?page (last xs) 10000 = Inr p"
      using after by (simp add: registry_CatalogPage_def p_def k_def)
    have split: "(xs @ p) @ drop k ys = xs @ ys" by (simp add: p_def)
    have shorter: "length (drop k ys) < length ys" using False k by simp
    have lastp: "last (xs @ p) = last p" using p by simp
    have "GetRepos_loop ?page (last xs) xs = GetRepos_loop ?page (last p) (xs @ p)"
      using page p by (subst GetRepos_loop.simps) (simp add: last_conv_nth)
    also have "\<dots> = GetRepos_loop
        (\<lambda>last' n. registry_CatalogPage cap ((xs @ p) @ drop k ys) regsitry last' n opts)
        (last (xs @ p)) (xs @ p)"
      by (simp only: split lastp)
    also have "\<dots> = Some ((xs @ p) @ drop k ys, None)"
      using less.prems p by (intro less.hyps [OF shorter]) (simp_all only: split, simp_all)
    finally show ?thesis by (simp only: split)
  qed
qed

text \<open>
  C1. Against a registry that serves a finite list of distinct, non-empty repository
  names in pages (of at most 10,000 entries, or fewer if the registry's own page limit
  is lower), \<^verbatim>\<open>GetRepos\<close> terminates and returns exactly that list, in the registry's
  order, with no error.
\<close>

theorem GetRepos_returns_catalog:
  assumes "name_NewRegistry address = Inr regsitry"
    and "distinct rs" and "'''' \<notin> set rs" and "0 < cap"
  shows "GetRepos name_NewRegistry (registry_CatalogPage cap rs) client address opts =
           Some (rs, None)"
proof -
  define os where "os = opts @ options client @
                 (case auth client address of
                    Some v \<Rightarrow> if Username v \<noteq> '''' \<and> Password v \<noteq> ''''
                              then [remote_WithAuth_Basic (Username v) (Password v)] else []
                  | None \<Rightarrow> [])"
  let ?page = "\<lambda>last' n. registry_CatalogPage cap rs regsitry last' n os"
  have start: "GetRepos name_NewRegistry (registry_CatalogPage cap rs) client address opts =
                 GetRepos_loop ?page '''' []"
    using assms(1)
    by (auto simp: GetRepos_def Let_def Auth_zero_def os_def split: option.splits)
  show ?thesis
  proof (cases "rs = []")
    case True
    then have "GetRepos_loop ?page '''' [] = Some ([], None)"
      by (subst GetRepos_loop.simps) (simp add: registry_CatalogPage_def catalog_after_def)
    with start True show ?thesis by simp
  next
    case False
    define k where "k = min 10000 cap"
    define p where "p = take k rs"
    have k: "0 < k" using assms(4) by (simp add: k_def)
    have p: "p \<noteq> []" using False k by (simp add: p_def)
    have rs: "p @ drop k rs = rs" by (simp add: p_def)
    have page: "?page '''' 10000 = Inr p"
      by (simp add: registry_CatalogPage_def catalog_after_def p_def k_def)
    have "GetRepos_loop ?page '''' [] = GetRepos_loop ?page (last p) p"
      using page p by (subst GetRepos_loop.simps) (simp add: last_conv_nth)
    also have "\<dots> = GetRepos_loop
        (\<lambda>last' n. registry_CatalogPage cap (p @ drop k rs) regsitry last' n os) (last p) p"
      by (simp only: rs)
    also have "\<dots> = Some (p @ drop k rs, None)"
      using assms(2,3,4) p by (intro GetRepos_loop_registry) (simp_all only: rs, simp_all)
    finally show ?thesis using start by (simp only: rs)
  qed
qed

theorem GetRepos_returns_catalog_witness:
  "GetRepos (\<lambda>a. Inr a) (registry_CatalogPage 2 [''a'', ''b'', ''c'', ''d'', ''e''])
     \<lparr>auth = Map.empty, options = []\<rparr> ''registry.example.com'' []
   = Some ([''a'', ''b'', ''c'', ''d'', ''e''], None)"
  using GetRepos_returns_catalog [of "\<lambda>a. Inr a" "''registry.example.com''"
      "''registry.example.com''" "[''a'', ''b'', ''c'', ''d'', ''e'']" 2
      "\<lparr>auth = Map.empty, options = []\<rparr>" "[]"]
  by simp

section \<open>Base64: decoding what was encoded\<close>

text \<open>A digit of an alphabet without repetitions decodes to its position.\<close>

lemma decodeMap_nth:
  "distinct enc \<Longrightarrow> i < length enc \<Longrightarrow> decodeMap enc (enc ! i) = Some i"
proof (induction enc arbitrary: i)
  case Nil
  then show ?case by simp
next
  case (Cons x enc)
  show ?case
  proof (cases i)
    case 0
    then show ?thesis by simp
  next
    case (Suc j)
    with Cons.prems have "j < length enc" and "enc ! j \<in> set enc" and "x \<notin> set enc"
      by simp_all
    then have "x \<noteq> enc ! j" by auto
    with Cons Suc show ?thesis by simp
  qed
qed

lemma decodeMap_None: "c \<notin> set enc \<Longrightarrow> decodeMap enc c = None"
  by (induction enc) auto

lemma length_encodeStd: "length encodeStd = 64"
  by (simp add: encodeStd_def)

lemma distinct_encodeStd: "distinct encodeStd"
  by (simp add: encodeStd_def)

lemma StdPadding_notin_encodeStd: "StdPadding \<notin> set encodeStd"
  by (simp add: encodeStd_def StdPadding_def)

lemma newlines_notin_encodeStd:
  "CHR 0x0A \<notin> set encodeStd" "CHR 0x0D \<notin> set encodeStd"
  by (simp_all add: encodeStd_def)

text \<open>The arithmetic of cutting three bytes into four 6-bit digits and back.\<close>

lemma div_mod_digits:
  fixes x y :: nat
  shows "y < 16 \<Longrightarrow> (x * 16 + y) div 16 = x"
    and "y < 16 \<Longrightarrow> (x * 16 + y) mod 16 = y"
    and "y < 4 \<Longrightarrow> (x * 4 + y) div 4 = x"
    and "y < 4 \<Longrightarrow> (x * 4 + y) mod 4 = y"
    and "(x * 16) div 16 = x"
    and "(x * 4) div 4 = x"
  by simp_all

lemma byte_parts:
  fixes b :: nat
  assumes "b < 256"
  shows "b div 16 < 16" and "b div 64 < 4" and "b div 4 < 64"
  using assms by simp_all

lemma sextet_bounds:
  fixes a b c :: nat
  shows "b < 256 \<Longrightarrow> (a mod 4) * 16 + b div 16 < 64"
    and "c < 256 \<Longrightarrow> (b mod 16) * 4 + c div 64 < 64"
    and "(a mod 4) * 16 < 64"
    and "(b mod 16) * 4 < 64"
    and "a < 256 \<Longrightarrow> a div 4 < 64"
proof -
  have m: "a mod 4 \<le> 3" "b mod 16 \<le> 15" by simp_all
  show "b < 256 \<Longrightarrow> (a mod 4) * 16 + b div 16 < 64"
  proof -
    assume "b < 256"
    then have "b div 16 \<le> 15" by simp
    with m show ?thesis by linarith
  qed
  show "c < 256 \<Longrightarrow> (b mod 16) * 4 + c div 64 < 64"
  proof -
    assume "c < 256"
    then have "c div 64 \<le> 3" by simp
    with m show ?thesis by linarith
  qed
  show "(a mod 4) * 16 < 64" using m by linarith
  show "(b mod 16) * 4 < 64" using m by linarith
  show "a < 256 \<Longrightarrow> a div 4 < 64" by simp
qed

lemma octets:
  fixes a b c :: nat
  shows "b < 256 \<Longrightarrow> (a div 4) * 4 + ((a mod 4) * 16 + b div 16) div 16 = a"
    and "b < 256 \<Longrightarrow> c < 256 \<Longrightarrow>
         (((a mod 4) * 16 + b div 16) mod 16) * 16 + ((b mod 16) * 4 + c div 64) div 4 = b"
    and "c < 256 \<Longrightarrow> (((b mod 16) * 4 + c div 64) mod 4) * 64 + c mod 64 = c"
    and "(a div 4) * 4 + ((a mod 4) * 16) div 16 = a"
    and "b < 256 \<Longrightarrow> (((a mod 4) * 16 + b div 16) mod 16) * 16 + ((b mod 16) * 4) div 4 = b"
  by (simp_all add: div_mod_digits byte_parts)

text \<open>
  One group of three, two or one bytes, encoded and decoded again, for any alphabet of
  64 distinct digits that does not contain the padding character.
\<close>

lemma decodeQuantum_three:
  assumes "distinct enc" and "length enc = 64"
    and rest: "decodeQuantum enc (EncodeToString enc src) = Inr src"
  shows "decodeQuantum enc (EncodeToString enc (a # b # c # src)) = Inr (a # b # c # src)"
proof -
  define A B C :: nat where "A = of_char a" and "B = of_char b" and "C = of_char c"
  have lt: "A < 256" "B < 256" "C < 256" by (simp_all add: A_def B_def C_def)
  define d0 d1 d2 d3 where "d0 = A div 4" and "d1 = (A mod 4) * 16 + B div 16"
    and "d2 = (B mod 16) * 4 + C div 64" and "d3 = C mod 64"
  have bounds: "d0 < 64" "d1 < 64" "d2 < 64" "d3 < 64"
    using lt sextet_bounds
    by (simp_all add: d0_def d1_def d2_def d3_def)
  have digits: "decodeMap enc (enc ! d0) = Some d0" "decodeMap enc (enc ! d1) = Some d1"
    "decodeMap enc (enc ! d2) = Some d2" "decodeMap enc (enc ! d3) = Some d3"
    using assms(1,2) bounds by (simp_all add: decodeMap_nth)
  have "d0 * 4 + d1 div 16 = A" "(d1 mod 16) * 16 + d2 div 4 = B" "(d2 mod 4) * 64 + d3 = C"
    using lt by (simp_all add: d0_def d1_def d2_def d3_def octets)
  then have bytes: "char_of (d0 * 4 + d1 div 16) = a"
    "char_of ((d1 mod 16) * 16 + d2 div 4) = b"
    "char_of ((d2 mod 4) * 64 + d3) = c"
    by (simp_all add: A_def B_def C_def)
  have "EncodeToString enc (a # b # c # src) =
          enc ! d0 # enc ! d1 # enc ! d2 # enc ! d3 # EncodeToString enc src"
    by (simp add: d0_def d1_def d2_def d3_def A_def B_def C_def)
  then show ?thesis using digits bytes rest by simp
qed

lemma decodeQuantum_two:
  assumes "distinct enc" and "length enc = 64" and "StdPadding \<notin> set enc"
  shows "decodeQuantum enc (EncodeToString enc [a, b]) = Inr [a, b]"
proof -
  define A B :: nat where "A = of_char a" and "B = of_char b"
  have lt: "A < 256" "B < 256" by (simp_all add: A_def B_def)
  define d0 d1 d2 where "d0 = A div 4" and "d1 = (A mod 4) * 16 + B div 16"
    and "d2 = (B mod 16) * 4"
  have bounds: "d0 < 64" "d1 < 64" "d2 < 64"
    using lt sextet_bounds
    by (simp_all add: d0_def d1_def d2_def)
  have digits: "decodeMap enc (enc ! d0) = Some d0" "decodeMap enc (enc ! d1) = Some d1"
    "decodeMap enc (enc ! d2) = Some d2" "decodeMap enc StdPadding = None"
    using assms bounds by (simp_all add: decodeMap_nth decodeMap_None)
  have "d0 * 4 + d1 div 16 = A" "(d1 mod 16) * 16 + d2 div 4 = B"
    using lt by (simp_all add: d0_def d1_def d2_def octets)
  then have bytes: "char_of (d0 * 4 + d1 div 16) = a"
    "char_of ((d1 mod 16) * 16 + d2 div 4) = b"
    by (simp_all add: A_def B_def)
  have "EncodeToString enc [a, b] = [enc ! d0, enc ! d1, enc ! d2, StdPadding]"
    by (simp add: d0_def d1_def d2_def A_def B_def)
  then show ?thesis using digits bytes by simp
qed

lemma decodeQuantum_one:
  assumes "distinct enc" and "length enc = 64" and "StdPadding \<notin> set enc"
  shows "decodeQuantum enc (EncodeToString enc [a]) = Inr [a]"
proof -
  define A :: nat where "A = of_char a"
  have lt: "A < 256" by (simp add: A_def)
  define d0 d1 where "d0 = A div 4" and "d1 = (A mod 4) * 16"
  have bounds: "d0 < 64" "d1 < 64"
    using lt sextet_bounds by (simp_all add: d0_def d1_def)
  have digits: "decodeMap enc (enc ! d0) = Some d0" "decodeMap enc (enc ! d1) = Some d1"
    "decodeMap enc StdPadding = None"
    using assms bounds by (simp_all add: decodeMap_nth decodeMap_None)
  have "d0 * 4 + d1 div 16 = A"
    by (simp add: d0_def d1_def octets)
  then have bytes: "char_of (d0 * 4 + d1 div 16) = a"
    by (simp add: A_def)
  have "EncodeToString enc [a] = [enc ! d0, enc ! d1, StdPadding, StdPadding]"
    by (simp add: d0_def d1_def A_def)
  then show ?thesis using digits bytes by simp
qed

lemma decodeQuantum_EncodeToString:
  assumes "distinct enc" and "length enc = 64" and "StdPadding \<notin> set enc"
  shows "decodeQuantum enc (EncodeToString enc s) = Inr s"
  using assms
proof (induction enc s rule: EncodeToString.induct)
  case (1 enc a b c src)
  then show ?case by (intro decodeQuantum_three) simp_all
next
  case (2 enc a b)
  then show ?case by (intro decodeQuantum_two)
next
  case (3 enc a)
  then show ?case by (intro decodeQuantum_one)
next
  case (4 enc)
  then show ?case by simp
qed

lemma set_EncodeToString:
  assumes "length enc = 64"
  shows "set (EncodeToString enc s) \<subseteq> insert StdPadding (set enc)"
  using assms
proof (induction enc s rule: EncodeToString.induct)
  case (1 enc a b c src)
  define A B C :: nat where "A = of_char a" and "B = of_char b" and "C = of_char c"
  have lt: "A < 256" "B < 256" "C < 256" by (simp_all add: A_def B_def C_def)
  have "A div 4 < 64" "(A mod 4) * 16 + B div 16 < 64" "(B mod 16) * 4 + C div 64 < 64"
    "C mod 64 < 64"
    using lt sextet_bounds by simp_all
  then have "enc ! (A div 4) \<in> set enc" "enc ! ((A mod 4) * 16 + B div 16) \<in> set enc"
    "enc ! ((B mod 16) * 4 + C div 64) \<in> set enc" "enc ! (C mod 64) \<in> set enc"
    using 1(2) by simp_all
  then show ?case using 1 by (auto simp: A_def B_def C_def)
next
  case (2 enc a b)
  define A B :: nat where "A = of_char a" and "B = of_char b"
  have lt: "A < 256" "B < 256" by (simp_all add: A_def B_def)
  have "A div 4 < 64" "(A mod 4) * 16 + B div 16 < 64" "(B mod 16) * 4 < 64"
    using lt sextet_bounds by simp_all
  then have "enc ! (A div 4) \<in> set enc" "enc ! ((A mod 4) * 16 + B div 16) \<in> set enc"
    "enc ! ((B mod 16) * 4) \<in> set enc"
    using 2 by simp_all
  then show ?case by (auto simp: A_def B_def)
next
  case (3 enc a)
  define A :: nat where "A = of_char a"
  have lt: "A < 256" by (simp add: A_def)
  have "A div 4 < 64" "(A mod 4) * 16 < 64"
    using lt sextet_bounds by simp_all
  then have "enc ! (A div 4) \<in> set enc" "enc ! ((A mod 4) * 16) \<in> set enc"
    using 3 by simp_all
  then show ?case by (auto simp: A_def)
next
  case (4 enc)
  then show ?case by simp
qed

lemma EncodeToString_empty_iff: "EncodeToString enc s = [] \<longleftrightarrow> s = []"
  by (induction enc s rule: EncodeToString.induct) simp_all

text \<open>
  The standard encoding round-trips: \<^verbatim>\<open>DecodeString\<close> returns every byte string that
  \<^verbatim>\<open>EncodeToString\<close> encoded, without error.
\<close>

theorem DecodeString_EncodeToString:
  "DecodeString encodeStd (EncodeToString encodeStd s) = Inr s"
proof -
  have "\<forall>x \<in> set (EncodeToString encodeStd s). x \<noteq> CHR 0x0A \<and> x \<noteq> CHR 0x0D"
    using set_EncodeToString [OF length_encodeStd, of s] newlines_notin_encodeStd
    by (auto simp: StdPadding_def)
  then have "filter (\<lambda>c. c \<noteq> CHR 0x0A \<and> c \<noteq> CHR 0x0D) (EncodeToString encodeStd s)
             = EncodeToString encodeStd s"
    by (simp add: filter_id_conv)
  then show ?thesis
    by (simp add: DecodeString_def decodeQuantum_EncodeToString distinct_encodeStd
        length_encodeStd StdPadding_notin_encodeStd)
qed

section \<open>Properties of the credential store\<close>

text \<open>\<^verbatim>\<open>strings.Split\<close>: one piece more than separators, and the two pieces around a
  single separator.\<close>

lemma Split_not_Nil: "Split s sep \<noteq> []"
  by (induction s) auto

lemma length_Split: "length (Split s sep) = Suc (count_list s sep)"
  by (induction s) (auto simp: Split_not_Nil)

lemma Split_no_sep: "sep \<notin> set s \<Longrightarrow> Split s sep = [s]"
  by (induction s) auto

lemma Split_append_sep: "sep \<notin> set u \<Longrightarrow> Split (u @ sep # p) sep = u # Split p sep"
  by (induction u) auto

lemma count_list_0_iff: "count_list s x = 0 \<longleftrightarrow> x \<notin> set s"
  by (induction s) auto

lemma Split_one_sep:
  "count_list s sep = 1 \<Longrightarrow>
   Split s sep = [takeWhile (\<lambda>x. x \<noteq> sep) s, drop 1 (dropWhile (\<lambda>x. x \<noteq> sep) s)]"
proof (induction s)
  case Nil
  then show ?case by simp
next
  case (Cons c s)
  show ?case
  proof (cases "c = sep")
    case True
    with Cons.prems have "sep \<notin> set s" by (simp add: count_list_0_iff)
    with True show ?thesis by (simp add: Split_no_sep)
  next
    case False
    with Cons show ?thesis by simp
  qed
qed

lemma Split_user_pass:
  assumes "sep \<notin> set user" and "sep \<notin> set pass"
  shows "Split (user @ sep # pass) sep = [user, pass]"
  using assms by (simp add: Split_append_sep Split_no_sep)

text \<open>
  Every step of the construction is a write to the credential map or nothing: the loop
  body over the file entries performs the write the spec describes for the entry, and an
  override performs its write when its address is a registry.
\<close>

lemma config_entry_write:
  "config_entry url_Parse name_NewRegistry Decode c entry =
     (case file_write url_Parse name_NewRegistry Decode entry of
        None \<Rightarrow> c
      | Some w \<Rightarrow> store_write c w)"
  by (auto simp: config_entry_def file_write_def store_write_def Let_def length_Split
      Split_one_sep split: sum.splits)

lemma WithAuth_write:
  "WithAuth name_NewRegistry (fst ov) (snd ov) c =
     (case name_NewRegistry (fst ov) of
        Inl err \<Rightarrow> Inl err
      | Inr d \<Rightarrow> Inr (store_write c (d, snd ov)))"
  by (simp add: WithAuth_def store_write_def split: sum.splits)

lemma options_handle_writes:
  "options_handle c (map (\<lambda>ov. WithAuth name_NewRegistry (fst ov) (snd ov)) overrides) =
     foldl store_write c (List.map_filter (override_write name_NewRegistry) overrides)"
  by (induction overrides arbitrary: c)
    (auto simp: WithAuth_write override_write_def split: sum.splits)

lemma config_entries_writes:
  "foldl (config_entry url_Parse name_NewRegistry Decode) c entries =
     foldl store_write c (List.map_filter (file_write url_Parse name_NewRegistry Decode) entries)"
  by (induction entries arbitrary: c)
    (auto simp: config_entry_write split: option.splits)

lemma last_writer_Cons:
  "last_writer d (w # ws) =
     (case last_writer d ws of
        Some a \<Rightarrow> Some a
      | None \<Rightarrow> if fst w = d then Some (snd w) else None)"
  by (auto simp: last_writer_def split: list.splits)

lemma auth_store_write:
  "auth (store_write c w) d = (if fst w = d then Some (snd w) else auth c d)"
  by (simp add: store_write_def)

lemma auth_foldl_store_write:
  "auth (foldl store_write c ws) d =
     (case last_writer d ws of None \<Rightarrow> auth c d | Some a \<Rightarrow> Some a)"
proof (induction ws arbitrary: c)
  case Nil
  then show ?case by (simp add: last_writer_def)
next
  case (Cons w ws)
  show ?case
    by (simp add: Cons.IH last_writer_Cons auth_store_write split: option.splits)
qed

text \<open>
  C2. After construction the credential map holds, for every domain, exactly the
  credential of the last write made under that domain, where the writes are those of
  the overrides in the order given, followed by those of the file entries in the order
  visited; it holds nothing for a domain that was never written. A domain written by an
  override and by a file entry therefore keeps one credential, the later one.
\<close>

theorem NewRegistryClient_last_writer_wins:
  "auth (NewRegistryClient url_Parse name_NewRegistry Decode
           (map (\<lambda>ov. WithAuth name_NewRegistry (fst ov) (snd ov)) overrides) config) d
   = last_writer d
       (List.map_filter (override_write name_NewRegistry) overrides
        @ List.map_filter (file_write url_Parse name_NewRegistry Decode) (file_entries config))"
proof -
  let ?c0 = "\<lparr>auth = Map.empty, options = []\<rparr>"
  let ?ws = "List.map_filter (override_write name_NewRegistry) overrides
        @ List.map_filter (file_write url_Parse name_NewRegistry Decode) (file_entries config)"
  have eq: "auth (NewRegistryClient url_Parse name_NewRegistry Decode
           (map (\<lambda>ov. WithAuth name_NewRegistry (fst ov) (snd ov)) overrides) config)
        = auth (foldl store_write ?c0 ?ws)"
    by (cases config)
      (simp_all add: NewRegistryClient_def Let_def options_handle_writes config_entries_writes
        file_entries_def)
  have "auth (foldl store_write ?c0 ?ws) d =
          (case last_writer d ?ws of None \<Rightarrow> auth ?c0 d | Some a \<Rightarrow> Some a)"
    by (rule auth_foldl_store_write)
  also have "\<dots> = last_writer d ?ws"
    by (simp split: option.splits)
  finally show ?thesis by (simp only: eq)
qed

theorem NewRegistryClient_last_writer_wins_witness:
  "auth (NewRegistryClient (\<lambda>s. Inl (Error ''parse'')) (\<lambda>s. Inr s) (DecodeString encodeStd)
           (map (\<lambda>ov. WithAuth (\<lambda>s. Inr s) (fst ov) (snd ov))
              [(''registry.example.com'', \<lparr>Username = ''alice'', Password = ''secret''\<rparr>)])
           (AuthConfigs [(''registry.example.com'', ''dXNlcjpwYXNz'')]))
     ''registry.example.com''
   = Some \<lparr>Username = ''user'', Password = ''pass''\<rparr>"
proof -
  have dec: "DecodeString encodeStd ''dXNlcjpwYXNz'' = Inr ''user:pass''"
    by code_simp
  show ?thesis
    using NewRegistryClient_last_writer_wins [where url_Parse = "\<lambda>s. Inl (Error ''parse'')"
        and name_NewRegistry = "\<lambda>s. Inr s" and Decode = "DecodeString encodeStd"
        and overrides = "[(''registry.example.com'', \<lparr>Username = ''alice'', Password = ''secret''\<rparr>)]"
        and config = "AuthConfigs [(''registry.example.com'', ''dXNlcjpwYXNz'')]"
        and d = "''registry.example.com''"]
    by (simp add: last_writer_def override_write_def file_write_def file_entries_def dec)
qed

text \<open>
  C3. A file entry whose auth block is the standard base64 encoding of \<open>user:pass\<close>,
  with no colon in \<open>user\<close> or in \<open>pass\<close>, and whose server key names a valid registry,
  stores exactly the credential with username \<open>user\<close> and password \<open>pass\<close> under that
  registry. A file entry whose auth block decodes to a string that does not have exactly
  one colon leaves the client unchanged.
\<close>

theorem config_entry_user_pass:
  "(name_NewRegistry (case url_Parse server of Inl err \<Rightarrow> server | Inr u_Host \<Rightarrow> u_Host)
      = Inr registry
    \<and> CHR '':'' \<notin> set user \<and> CHR '':'' \<notin> set pass \<longrightarrow>
    config_entry url_Parse name_NewRegistry (DecodeString encodeStd) c
      (server, EncodeToString encodeStd (user @ '':'' @ pass))
    = c\<lparr>auth := (auth c)(registry \<mapsto> \<lparr>Username = user, Password = pass\<rparr>)\<rparr>)
   \<and> (DecodeString encodeStd a = Inr s \<and> count_list s CHR '':'' \<noteq> 1 \<longrightarrow>
      config_entry url_Parse name_NewRegistry (DecodeString encodeStd) c (server, a) = c)"
proof (intro conjI impI)
  assume h: "name_NewRegistry (case url_Parse server of Inl err \<Rightarrow> server | Inr u_Host \<Rightarrow> u_Host)
      = Inr registry
    \<and> CHR '':'' \<notin> set user \<and> CHR '':'' \<notin> set pass"
  have ne: "EncodeToString encodeStd (user @ CHR '':'' # pass) \<noteq> []"
    by (simp add: EncodeToString_empty_iff)
  have sp: "Split (user @ CHR '':'' # pass) CHR '':'' = [user, pass]"
    using h by (intro Split_user_pass) simp_all
  show "config_entry url_Parse name_NewRegistry (DecodeString encodeStd) c
      (server, EncodeToString encodeStd (user @ '':'' @ pass))
    = c\<lparr>auth := (auth c)(registry \<mapsto> \<lparr>Username = user, Password = pass\<rparr>)\<rparr>"
    using h ne by (simp add: config_entry_def DecodeString_EncodeToString sp)
next
  assume h: "DecodeString encodeStd a = Inr s \<and> count_list s CHR '':'' \<noteq> 1"
  then show "config_entry url_Parse name_NewRegistry (DecodeString encodeStd) c (server, a) = c"
    by (simp add: config_entry_def length_Split split: sum.splits)
qed

theorem config_entry_user_pass_witness:
  "config_entry
     (\<lambda>s. if s = ''https://registry.example.com'' then Inr ''registry.example.com''
           else Inl (Error ''parse''))
     (\<lambda>s. Inr s) (DecodeString encodeStd) \<lparr>auth = Map.empty, options = []\<rparr>
     (''https://registry.example.com'', ''dXNlcjpwYXNz'')
   = \<lparr>auth = [''registry.example.com'' \<mapsto> \<lparr>Username = ''user'', Password = ''pass''\<rparr>],
      options = []\<rparr>
   \<and> config_entry
     (\<lambda>s. if s = ''https://registry.example.com'' then Inr ''registry.example.com''
           else Inl (Error ''parse''))
     (\<lambda>s. Inr s) (DecodeString encodeStd) \<lparr>auth = Map.empty, options = []\<rparr>
     (''https://registry.example.com'', ''dTpwOng='')
   = \<lparr>auth = Map.empty, options = []\<rparr>"
proof -
  have enc: "EncodeToString encodeStd (''user'' @ '':'' @ ''pass'') = ''dXNlcjpwYXNz''"
    by (simp add: encodeStd_def)
  have dec: "DecodeString encodeStd ''dTpwOng='' = Inr ''u:p:x''"
    by code_simp
  show ?thesis
    using config_entry_user_pass [where name_NewRegistry = "\<lambda>s. Inr s"
        and url_Parse = "\<lambda>s. if s = ''https://registry.example.com''
           then Inr ''registry.example.com'' else Inl (Error ''parse'')"
        and server = "''https://registry.example.com''" and registry = "''registry.example.com''"
        and user = "''user''" and pass = "''pass''"
        and c = "\<lparr>auth = Map.empty, options = []\<rparr>"
        and a = "''dTpwOng=''" and s = "''u:p:x''"]
      enc dec
    by simp
qed

text \<open>An entry without an auth block changes nothing, wherever it stands in the file.\<close>

lemma config_entry_no_auth_block:
  "config_entry url_Parse name_NewRegistry Decode c (server, '''') = c"
  by (simp add: config_entry_def split: sum.splits)

lemma foldl_config_entry_filter:
  "foldl (config_entry url_Parse name_NewRegistry Decode) c entries
   = foldl (config_entry url_Parse name_NewRegistry Decode) c
       (filter (\<lambda>entry. snd entry \<noteq> '''') entries)"
proof (induction entries arbitrary: c)
  case Nil
  then show ?case by simp
next
  case (Cons e es)
  show ?case
  proof (cases "snd e = ''''")
    case True
    then have "config_entry url_Parse name_NewRegistry Decode c e = c"
      using config_entry_no_auth_block [of url_Parse name_NewRegistry Decode c "fst e"]
      by (cases e) simp
    with True Cons.IH show ?thesis by simp
  next
    case False
    with Cons.IH show ?thesis by simp
  qed
qed

text \<open>
  C10. A file entry whose auth block is the empty string leaves the client unchanged; an
  entry that changes the client has a non-empty auth block that decodes to a string of
  exactly two colon-separated parts; and the constructed client is the same as if the
  entries with an empty auth block were not in the file, so such an entry never replaces
  a credential set by an override.
\<close>

theorem config_entry_empty_auth:
  "config_entry url_Parse name_NewRegistry Decode c (server, '''') = c
   \<and> (config_entry url_Parse name_NewRegistry Decode c (server, a) \<noteq> c \<longrightarrow>
        a \<noteq> '''' \<and> (\<exists>s. Decode a = Inr s \<and> length (Split s CHR '':'') = 2))
   \<and> NewRegistryClient url_Parse name_NewRegistry Decode opts (AuthConfigs entries)
     = NewRegistryClient url_Parse name_NewRegistry Decode opts
         (AuthConfigs (filter (\<lambda>entry. snd entry \<noteq> '''') entries))"
proof -
  have written: "a \<noteq> '''' \<and> (\<exists>s. Decode a = Inr s \<and> length (Split s CHR '':'') = 2)"
    if "config_entry url_Parse name_NewRegistry Decode c (server, a) \<noteq> c"
    using that by (auto simp: config_entry_def Let_def split: sum.splits if_splits)
  have same: "NewRegistryClient url_Parse name_NewRegistry Decode opts (AuthConfigs entries)
     = NewRegistryClient url_Parse name_NewRegistry Decode opts
         (AuthConfigs (filter (\<lambda>entry. snd entry \<noteq> '''') entries))"
    using foldl_config_entry_filter [of url_Parse name_NewRegistry Decode _ entries]
    by (simp add: NewRegistryClient_def Let_def)
  show ?thesis
    using written same config_entry_no_auth_block [of url_Parse name_NewRegistry Decode c server]
    by blast
qed

theorem config_entry_empty_auth_witness:
  "config_entry (\<lambda>s. Inl (Error ''parse'')) (\<lambda>s. Inr s) (DecodeString encodeStd)
     \<lparr>auth = [''registry.example.com'' \<mapsto> \<lparr>Username = ''alice'', Password = ''secret''\<rparr>],
      options = []\<rparr>
     (''registry.example.com'', '''')
   = \<lparr>auth = [''registry.example.com'' \<mapsto> \<lparr>Username = ''alice'', Password = ''secret''\<rparr>],
      options = []\<rparr>
   \<and> config_entry (\<lambda>s. Inl (Error ''parse'')) (\<lambda>s. Inr s) (DecodeString encodeStd)
     \<lparr>auth = [''registry.example.com'' \<mapsto> \<lparr>Username = ''alice'', Password = ''secret''\<rparr>],
      options = []\<rparr>
     (''registry.example.com'', ''dXNlcjpwYXNz'')
   \<noteq> \<lparr>auth = [''registry.example.com'' \<mapsto> \<lparr>Username = ''alice'', Password = ''secret''\<rparr>],
      options = []\<rparr>
   \<and> (\<exists>s. DecodeString encodeStd ''dXNlcjpwYXNz'' = Inr s \<and> length (Split s CHR '':'') = 2)"
proof -
  let ?c = "\<lparr>auth = [''registry.example.com'' \<mapsto> \<lparr>Username = ''alice'', Password = ''secret''\<rparr>],
      options = []\<rparr>"
  have dec: "DecodeString encodeStd ''dXNlcjpwYXNz'' = Inr ''user:pass''"
    by code_simp
  have changed: "config_entry (\<lambda>s. Inl (Error ''parse'')) (\<lambda>s. Inr s) (DecodeString encodeStd)
     ?c (''registry.example.com'', ''dXNlcjpwYXNz'') \<noteq> ?c"
  proof
    assume "config_entry (\<lambda>s. Inl (Error ''parse'')) (\<lambda>s. Inr s) (DecodeString encodeStd)
     ?c (''registry.example.com'', ''dXNlcjpwYXNz'') = ?c"
    then have "auth (config_entry (\<lambda>s. Inl (Error ''parse'')) (\<lambda>s. Inr s)
      (DecodeString encodeStd) ?c (''registry.example.com'', ''dXNlcjpwYXNz''))
      ''registry.example.com'' = auth ?c ''registry.example.com''"
      by simp
    then show False by (simp add: config_entry_def dec)
  qed
  show ?thesis
    using config_entry_empty_auth [where url_Parse = "\<lambda>s. Inl (Error ''parse'')"
        and name_NewRegistry = "\<lambda>s. Inr s" and Decode = "DecodeString encodeStd"
        and c = ?c and server = "''registry.example.com''" and a = "''dXNlcjpwYXNz''"]
      changed
    by simp
qed

end
